theory Spec2Isabelle
  imports Main
begin

section \<open>The ECS status utility: remote calls, pagination, batching, aggregation\<close>

text \<open>
  A shallow embedding of the fetching functions of \<^verbatim>\<open>src/aws/ecs/ecs-status.py\<close>:
  \<^verbatim>\<open>truncate_string\<close>, \<^verbatim>\<open>get_clusters\<close>, \<^verbatim>\<open>get_services\<close>, \<^verbatim>\<open>get_tasks\<close>,
  \<^verbatim>\<open>get_task_details\<close>, \<^verbatim>\<open>get_service_details\<close>, \<^verbatim>\<open>get_cluster_details\<close> and the
  status count of \<^verbatim>\<open>show_cluster_summary\<close>.

  The remote API is the only effect. It is modelled as a function that takes the keyword
  arguments of a call and the state of the remote side, and gives back either the exception
  the call raised or the response dictionary, together with the next state of the remote
  side. An exception is never caught by the fetching functions, so it ends the function with
  the exception as its result.
\<close>

subsection \<open>Python values\<close>

text \<open>An exception raised by a method of the boto3 client, with its message.\<close>

datatype error = ClientError string

text \<open>
  Truth value of an optional string, as Python's \<^verbatim>\<open>if x:\<close> takes it: \<^verbatim>\<open>None\<close> and the
  empty string are both false.
\<close>

fun truthy :: "string option \<Rightarrow> bool" where
  "truthy None = False"
| "truthy (Some x) = (x \<noteq> [])"

text \<open>
  The slice \<^verbatim>\<open>s[:k]\<close>: a negative \<open>k\<close> counts from the end, and the bounds are clamped
  to the sequence.
\<close>

definition slice_to :: "'a list \<Rightarrow> int \<Rightarrow> 'a list" where
  "slice_to s k = (if k < 0 then take (nat (int (length s) + k)) s else take (nat k) s)"

text \<open>The slice \<^verbatim>\<open>xs[i:j]\<close> for indices that are not negative.\<close>

definition slice :: "'a list \<Rightarrow> nat \<Rightarrow> nat \<Rightarrow> 'a list" where
  "slice xs i j = take (j - i) (drop i xs)"

text \<open>
  \<^verbatim>\<open>range(start, stop, step)\<close> as a list, for bounds that are not negative. Python raises
  on a step of zero; the two calls of the source pass the constants 100 and 10.
\<close>

function range_step :: "nat \<Rightarrow> nat \<Rightarrow> nat \<Rightarrow> nat list" where
  "range_step i stop step =
     (if 0 < step \<and> i < stop then i # range_step (i + step) stop step else [])"
  by pat_completeness auto
termination
  by (relation "measure (\<lambda>(i, stop, step). stop - i)") auto

declare range_step.simps [simp del]

subsection \<open>truncate\_string\<close>

text \<open>
  \<^verbatim>\<open>
  def truncate_string(s, max_length=50):
      if len(s) <= max_length:
          return s
      return s[:max_length-3] + '...'
  \<close>
\<close>

definition truncate_string :: "string \<Rightarrow> int \<Rightarrow> string" where
  "truncate_string s max_length =
     (if int (length s) \<le> max_length then s
      else slice_to s (max_length - 3) @ ''...'')"

subsection \<open>The remote API\<close>

text \<open>
  The keyword arguments of one call of the client. An optional keyword that the call leaves
  out is \<open>None\<close>.
\<close>

datatype request =
    list_clusters "string option"
  | list_services string "string option"
  | list_tasks string "string option" "string option"
  | describe_tasks string "string list"
  | describe_services string "string list"
  | describe_clusters "string list" "string list"

text \<open>
  The arguments are, in this order: \<^verbatim>\<open>nextToken\<close> for \<open>list_clusters\<close>; \<^verbatim>\<open>cluster\<close>,
  \<^verbatim>\<open>nextToken\<close> for \<open>list_services\<close>; \<^verbatim>\<open>cluster\<close>, \<^verbatim>\<open>serviceName\<close>, \<^verbatim>\<open>nextToken\<close> for
  \<open>list_tasks\<close>; \<^verbatim>\<open>cluster\<close>, \<^verbatim>\<open>tasks\<close> for \<open>describe_tasks\<close>; \<^verbatim>\<open>cluster\<close>, \<^verbatim>\<open>services\<close>
  for \<open>describe_services\<close>; \<^verbatim>\<open>clusters\<close>, \<^verbatim>\<open>include\<close> for \<open>describe_clusters\<close>.
\<close>

text \<open>
  The response dictionaries, with the keys the source reads. The key \<^verbatim>\<open>nextToken\<close> of a
  listing response is optional: \<open>None\<close> is a response without the key.
\<close>

record page =
  nextToken :: "string option"

record list_clusters_response = page +
  clusterArns :: "string list"

record list_services_response = page +
  serviceArns :: "string list"

record list_tasks_response = page +
  taskArns :: "string list"

text \<open>The detail records, with the fields a caller in the source reads.\<close>

record task =
  taskArn :: string
  lastStatus :: string

record service =
  serviceArn :: string
  serviceName :: string

record cluster =
  clusterArn :: string
  clusterName :: string

text \<open>
  The responses of the detail calls: the fields hold the values under the keys \<^verbatim>\<open>tasks\<close>,
  \<^verbatim>\<open>services\<close> and \<^verbatim>\<open>clusters\<close>.
\<close>

record describe_tasks_response =
  response_tasks :: "task list"

record describe_services_response =
  response_services :: "service list"

record describe_clusters_response =
  response_clusters :: "cluster list"

text \<open>
  A client that answers requests \<open>'q\<close> with responses \<open>'r\<close>, over a remote state \<open>'s\<close>.
\<close>

type_synonym ('q, 'r, 's) remote = "'q \<Rightarrow> 's \<Rightarrow> (error + 'r) \<times> 's"

subsection \<open>Paginated listing\<close>

text \<open>
  \<^verbatim>\<open>
  def get_clusters(ecs_client):
      clusters = []
      next_token = None
      while True:
          if next_token:
              response = ecs_client.list_clusters(nextToken=next_token)
          else:
              response = ecs_client.list_clusters()
          clusters.extend(response['clusterArns'])
          if 'nextToken' in response:
              next_token = response['nextToken']
          else:
              break
      return clusters
  \<close>
  The loop has no bound of its own: it runs for as long as the responses carry a token.
  The result \<open>None\<close> is the loop that never ends.
\<close>

partial_function (option) get_clusters_loop ::
  "(request, list_clusters_response, 's) remote \<Rightarrow> string list \<Rightarrow> string option \<Rightarrow> 's
     \<Rightarrow> ((error + string list) \<times> 's) option" where
  "get_clusters_loop ecs_client clusters next_token s =
     (case (if truthy next_token then ecs_client (list_clusters next_token) s
            else ecs_client (list_clusters None) s) of
        (Inl e, s') \<Rightarrow> Some (Inl e, s')
      | (Inr response, s') \<Rightarrow>
          (let clusters' = clusters @ clusterArns response in
           case nextToken response of
             Some t \<Rightarrow> get_clusters_loop ecs_client clusters' (Some t) s'
           | None \<Rightarrow> Some (Inr clusters', s')))"

definition get_clusters ::
  "(request, list_clusters_response, 's) remote \<Rightarrow> 's \<Rightarrow> ((error + string list) \<times> 's) option" where
  "get_clusters ecs_client s = get_clusters_loop ecs_client [] None s"

text \<open>\<^verbatim>\<open>get_services(ecs_client, cluster_arn)\<close>: the same loop over \<^verbatim>\<open>list_services\<close>.\<close>

partial_function (option) get_services_loop ::
  "(request, list_services_response, 's) remote \<Rightarrow> string \<Rightarrow> string list \<Rightarrow> string option \<Rightarrow> 's
     \<Rightarrow> ((error + string list) \<times> 's) option" where
  "get_services_loop ecs_client cluster_arn services next_token s =
     (case (if truthy next_token then ecs_client (list_services cluster_arn next_token) s
            else ecs_client (list_services cluster_arn None) s) of
        (Inl e, s') \<Rightarrow> Some (Inl e, s')
      | (Inr response, s') \<Rightarrow>
          (let services' = services @ serviceArns response in
           case nextToken response of
             Some t \<Rightarrow> get_services_loop ecs_client cluster_arn services' (Some t) s'
           | None \<Rightarrow> Some (Inr services', s')))"

definition get_services ::
  "(request, list_services_response, 's) remote \<Rightarrow> string \<Rightarrow> 's
     \<Rightarrow> ((error + string list) \<times> 's) option" where
  "get_services ecs_client cluster_arn s = get_services_loop ecs_client cluster_arn [] None s"

text \<open>
  \<^verbatim>\<open>get_tasks(ecs_client, cluster_arn, service_arn=None)\<close>: the loop over \<^verbatim>\<open>list_tasks\<close>, with
  the keyword \<^verbatim>\<open>serviceName\<close> when \<^verbatim>\<open>service_arn\<close> is true.
\<close>

partial_function (option) get_tasks_loop ::
  "(request, list_tasks_response, 's) remote \<Rightarrow> string \<Rightarrow> string option \<Rightarrow> string list
     \<Rightarrow> string option \<Rightarrow> 's \<Rightarrow> ((error + string list) \<times> 's) option" where
  "get_tasks_loop ecs_client cluster_arn service_arn tasks next_token s =
     (case (if truthy service_arn then
              (if truthy next_token then ecs_client (list_tasks cluster_arn service_arn next_token) s
               else ecs_client (list_tasks cluster_arn service_arn None) s)
            else
              (if truthy next_token then ecs_client (list_tasks cluster_arn None next_token) s
               else ecs_client (list_tasks cluster_arn None None) s)) of
        (Inl e, s') \<Rightarrow> Some (Inl e, s')
      | (Inr response, s') \<Rightarrow>
          (let tasks' = tasks @ taskArns response in
           case nextToken response of
             Some t \<Rightarrow> get_tasks_loop ecs_client cluster_arn service_arn tasks' (Some t) s'
           | None \<Rightarrow> Some (Inr tasks', s')))"

definition get_tasks ::
  "(request, list_tasks_response, 's) remote \<Rightarrow> string \<Rightarrow> string option \<Rightarrow> 's
     \<Rightarrow> ((error + string list) \<times> 's) option" where
  "get_tasks ecs_client cluster_arn service_arn s =
     get_tasks_loop ecs_client cluster_arn service_arn [] None s"

subsection \<open>Batched detail fetch\<close>

text \<open>
  \<^verbatim>\<open>
  def get_task_details(ecs_client, cluster_arn, task_arns):
      if not task_arns:
          return []
      task_chunks = [task_arns[i:i+100] for i in range(0, len(task_arns), 100)]
      all_tasks = []
      for chunk in task_chunks:
          response = ecs_client.describe_tasks(cluster=cluster_arn, tasks=chunk)
          all_tasks.extend(response['tasks'])
      return all_tasks
  \<close>
\<close>

definition task_chunks :: "string list \<Rightarrow> string list list" where
  "task_chunks task_arns =
     map (\<lambda>i. slice task_arns i (i + 100)) (range_step 0 (length task_arns) 100)"

fun get_task_details_loop ::
  "(request, describe_tasks_response, 's) remote \<Rightarrow> string \<Rightarrow> string list list \<Rightarrow> task list \<Rightarrow> 's
     \<Rightarrow> (error + task list) \<times> 's" where
  "get_task_details_loop ecs_client cluster_arn [] all_tasks s = (Inr all_tasks, s)"
| "get_task_details_loop ecs_client cluster_arn (chunk # chunks) all_tasks s =
     (case ecs_client (describe_tasks cluster_arn chunk) s of
        (Inl e, s') \<Rightarrow> (Inl e, s')
      | (Inr response, s') \<Rightarrow>
          get_task_details_loop ecs_client cluster_arn chunks
            (all_tasks @ response_tasks response) s')"

definition get_task_details ::
  "(request, describe_tasks_response, 's) remote \<Rightarrow> string \<Rightarrow> string list \<Rightarrow> 's
     \<Rightarrow> (error + task list) \<times> 's" where
  "get_task_details ecs_client cluster_arn task_arns s =
     (if task_arns = [] then (Inr [], s)
      else get_task_details_loop ecs_client cluster_arn (task_chunks task_arns) [] s)"

text \<open>
  \<^verbatim>\<open>
  def get_service_details(ecs_client, cluster_arn, service_arns):
      if not service_arns:
          return []
      service_chunks = [service_arns[i:i+10] for i in range(0, len(service_arns), 10)]
      all_services = []
      for chunk in service_chunks:
          response = ecs_client.describe_services(cluster=cluster_arn, services=chunk)
          all_services.extend(response['services'])
      return all_services
  \<close>
\<close>

definition service_chunks :: "string list \<Rightarrow> string list list" where
  "service_chunks service_arns =
     map (\<lambda>i. slice service_arns i (i + 10)) (range_step 0 (length service_arns) 10)"

fun get_service_details_loop ::
  "(request, describe_services_response, 's) remote \<Rightarrow> string \<Rightarrow> string list list
     \<Rightarrow> service list \<Rightarrow> 's \<Rightarrow> (error + service list) \<times> 's" where
  "get_service_details_loop ecs_client cluster_arn [] all_services s = (Inr all_services, s)"
| "get_service_details_loop ecs_client cluster_arn (chunk # chunks) all_services s =
     (case ecs_client (describe_services cluster_arn chunk) s of
        (Inl e, s') \<Rightarrow> (Inl e, s')
      | (Inr response, s') \<Rightarrow>
          get_service_details_loop ecs_client cluster_arn chunks
            (all_services @ response_services response) s')"

definition get_service_details ::
  "(request, describe_services_response, 's) remote \<Rightarrow> string \<Rightarrow> string list \<Rightarrow> 's
     \<Rightarrow> (error + service list) \<times> 's" where
  "get_service_details ecs_client cluster_arn service_arns s =
     (if service_arns = [] then (Inr [], s)
      else get_service_details_loop ecs_client cluster_arn (service_chunks service_arns) [] s)"

subsection \<open>Cluster details\<close>

text \<open>
  \<^verbatim>\<open>
  def get_cluster_details(ecs_client, cluster_arns):
      if not cluster_arns:
          return []
      response = ecs_client.describe_clusters(clusters=cluster_arns, include=['STATISTICS'])
      return response['clusters']
  \<close>
\<close>

definition get_cluster_details ::
  "(request, describe_clusters_response, 's) remote \<Rightarrow> string list \<Rightarrow> 's
     \<Rightarrow> (error + cluster list) \<times> 's" where
  "get_cluster_details ecs_client cluster_arns s =
     (if cluster_arns = [] then (Inr [], s)
      else (case ecs_client (describe_clusters cluster_arns [''STATISTICS'']) s of
              (Inl e, s') \<Rightarrow> (Inl e, s')
            | (Inr response, s') \<Rightarrow> (Inr (response_clusters response), s')))"

subsection \<open>Status count\<close>

text \<open>
  The count of \<^verbatim>\<open>show_cluster_summary\<close>:
  \<^verbatim>\<open>
  status_count = defaultdict(int)
  for task in task_details:
      status_count[task['lastStatus']] += 1
  \<close>
  A Python dictionary keeps its keys in the order of their first insertion, so the dictionary
  is a list of pairs with distinct keys. \<open>incr d k\<close> is \<^verbatim>\<open>d[k] += 1\<close> on a
  \<^verbatim>\<open>defaultdict(int)\<close>: a missing key starts at \<open>0\<close>.
\<close>

fun incr :: "('k \<times> int) list \<Rightarrow> 'k \<Rightarrow> ('k \<times> int) list" where
  "incr [] k = [(k, 0 + 1)]"
| "incr ((k', c) # d) k = (if k' = k then (k', c + 1) # d else (k', c) # incr d k)"

fun status_count_loop :: "(string \<times> int) list \<Rightarrow> task list \<Rightarrow> (string \<times> int) list" where
  "status_count_loop status_count [] = status_count"
| "status_count_loop status_count (task # task_details) =
     status_count_loop (incr status_count (lastStatus task)) task_details"

definition status_count :: "task list \<Rightarrow> (string \<times> int) list" where
  "status_count task_details = status_count_loop [] task_details"

subsection \<open>A scripted client\<close>

text \<open>
  A test double of the client: its state is the list of the outcomes it has still to give,
  one for each call, and the list of the requests it has received so far. A call past the end
  of the script raises.
\<close>

type_synonym ('q, 'r) double = "(error + 'r) list \<times> 'q list"

fun scripted :: "'q \<Rightarrow> ('q, 'r) double \<Rightarrow> (error + 'r) \<times> ('q, 'r) double" where
  "scripted q ([], received) = (Inl (ClientError ''script exhausted''), ([], received @ [q]))"
| "scripted q (r # script, received) = (r, (script, received @ [q]))"

text \<open>The token a listing call carries after a response with the token \<open>t\<close>.\<close>

definition sent :: "string option \<Rightarrow> string option" where
  "sent t = (if truthy t then t else None)"

text \<open>The identifiers a detail call asks for.\<close>

fun requested :: "request \<Rightarrow> string list" where
  "requested (describe_tasks c ids) = ids"
| "requested (describe_services c ids) = ids"
| "requested (describe_clusters ids inc) = ids"
| "requested (list_clusters t) = []"
| "requested (list_services c t) = []"
| "requested (list_tasks c sv t) = []"

section \<open>Properties\<close>

subsection \<open>Ranges and chunks\<close>

lemma range_step_Nil: "\<not> (0 < step \<and> i < stop) \<Longrightarrow> range_step i stop step = []"
  by (subst range_step.simps) simp

lemma range_step_Cons:
  "0 < step \<Longrightarrow> i < stop \<Longrightarrow> range_step i stop step = i # range_step (i + step) stop step"
  by (subst range_step.simps) simp

lemma length_range_step:
  "0 < step \<Longrightarrow> length (range_step i stop step) = (stop - i + step - 1) div step"
proof (induction i stop step rule: range_step.induct)
  case (1 i stop step)
  show ?case
  proof (cases "i < stop")
    case False
    with 1 show ?thesis by (simp add: range_step_Nil)
  next
    case True
    have IH: "length (range_step (i + step) stop step) = (stop - (i + step) + step - 1) div step"
      using 1 True by simp
    define m where "m = stop - (i + step) + step - 1"
    have "(stop - i + step - 1) div step = Suc (m div step)"
    proof (cases "i + step \<le> stop")
      case True
      then have e: "stop - i + step - 1 = m + step"
        unfolding m_def using \<open>0 < step\<close> by arith
      have "(m + step) div step = Suc (m div step)"
        using \<open>0 < step\<close> div_add_self2 [of step m] by simp
      then show ?thesis unfolding e by (simp only:)
    next
      case False
      define r where "r = stop - i - 1"
      from False True \<open>0 < step\<close> have r: "r < step" and m: "m < step"
        unfolding r_def m_def by arith+
      from True have e: "stop - i + step - 1 = r + step"
        unfolding r_def by arith
      have "(r + step) div step = Suc (r div step)"
        using \<open>0 < step\<close> div_add_self2 [of step r] by simp
      with r have "(r + step) div step = Suc 0" by simp
      moreover from m have "m div step = 0" by simp
      ultimately show ?thesis unfolding e by (simp only:)
    qed
    then have "(stop - i + step - 1) div step = Suc ((stop - (i + step) + step - 1) div step)"
      by (simp add: m_def)
    with IH True 1 show ?thesis by (simp add: range_step_Cons)
  qed
qed

lemma range_step_nth:
  "0 < step \<Longrightarrow> k < length (range_step i stop step) \<Longrightarrow>
     range_step i stop step ! k = i + k * step"
proof (induction i stop step arbitrary: k rule: range_step.induct)
  case (1 i stop step)
  show ?case
  proof (cases "i < stop")
    case False
    with 1 show ?thesis by (simp add: range_step_Nil)
  next
    case True
    with 1 show ?thesis by (cases k) (simp_all add: range_step_Cons)
  qed
qed

lemma concat_slices:
  "0 < n \<Longrightarrow> stop = length xs \<Longrightarrow>
     concat (map (\<lambda>i. slice xs i (i + n)) (range_step i0 stop n)) = drop i0 xs"
proof (induction i0 stop n rule: range_step.induct)
  case (1 i stop step)
  show ?case
  proof (cases "i < stop")
    case False
    with 1 show ?thesis by (simp add: range_step_Nil)
  next
    case True
    have "take step (drop i xs) @ drop (i + step) xs = drop i xs"
      by (metis add.commute append_take_drop_id drop_drop)
    with 1 True show ?thesis by (simp add: range_step_Cons slice_def)
  qed
qed

lemma task_chunks_Nil: "task_chunks [] = []"
  by (simp add: task_chunks_def range_step_Nil)

lemma service_chunks_Nil: "service_chunks [] = []"
  by (simp add: service_chunks_def range_step_Nil)

lemma length_task_chunks: "length (task_chunks xs) = (length xs + 99) div 100"
  by (simp add: task_chunks_def length_range_step)

lemma length_service_chunks: "length (service_chunks xs) = (length xs + 9) div 10"
  by (simp add: service_chunks_def length_range_step)

lemma concat_task_chunks: "concat (task_chunks xs) = xs"
  using concat_slices [of 100 "length xs" xs 0] by (simp add: task_chunks_def)

lemma concat_service_chunks: "concat (service_chunks xs) = xs"
  using concat_slices [of 10 "length xs" xs 0] by (simp add: service_chunks_def)

lemma task_chunk_le: "ch \<in> set (task_chunks xs) \<Longrightarrow> length ch \<le> 100"
  by (auto simp: task_chunks_def slice_def)

lemma service_chunk_le: "ch \<in> set (service_chunks xs) \<Longrightarrow> length ch \<le> 10"
  by (auto simp: service_chunks_def slice_def)

lemma task_chunks_nth:
  "k < length (task_chunks xs) \<Longrightarrow> task_chunks xs ! k = take 100 (drop (100 * k) xs)"
  by (simp add: task_chunks_def range_step_nth slice_def mult.commute)

lemma service_chunks_nth:
  "k < length (service_chunks xs) \<Longrightarrow> service_chunks xs ! k = take 10 (drop (10 * k) xs)"
  by (simp add: service_chunks_def range_step_nth slice_def mult.commute)

lemma task_chunks_250:
  "length xs = 250 \<Longrightarrow> map length (task_chunks xs) = [100, 100, 50]"
  by (simp add: task_chunks_def range_step.simps slice_def)

subsection \<open>The listing loops on a scripted client\<close>

text \<open>
  A script that starts with pages carrying a token, followed by a page without one: the loop
  reads exactly these pages. \<open>tok\<close> is the token the loop holds and \<open>acc\<close> what it has
  collected when it starts.
\<close>

lemma get_clusters_loop_pages:
  assumes "\<forall>x\<in>set pre. nextToken x \<noteq> None" and "nextToken p = None"
  shows "get_clusters_loop scripted acc tok (map Inr pre @ Inr p # rest, received) =
     Some (Inr (acc @ concat (map clusterArns (pre @ [p]))),
           (rest, received @ map (\<lambda>t. list_clusters (sent t)) (tok # map nextToken pre)))"
  using assms
proof (induction pre arbitrary: acc tok received)
  case Nil
  then show ?case
    by (subst get_clusters_loop.simps) (simp add: sent_def)
next
  case (Cons x pre)
  then obtain t where t: "nextToken x = Some t" by auto
  show ?case
    using Cons.IH [of "acc @ clusterArns x" "Some t"] Cons.prems t
    by (subst get_clusters_loop.simps) (simp add: sent_def)
qed

lemma get_services_loop_pages:
  assumes "\<forall>x\<in>set pre. nextToken x \<noteq> None" and "nextToken p = None"
  shows "get_services_loop scripted cl acc tok (map Inr pre @ Inr p # rest, received) =
     Some (Inr (acc @ concat (map serviceArns (pre @ [p]))),
           (rest, received @ map (\<lambda>t. list_services cl (sent t)) (tok # map nextToken pre)))"
  using assms
proof (induction pre arbitrary: acc tok received)
  case Nil
  then show ?case
    by (subst get_services_loop.simps) (simp add: sent_def)
next
  case (Cons x pre)
  then obtain t where t: "nextToken x = Some t" by auto
  show ?case
    using Cons.IH [of "acc @ serviceArns x" "Some t"] Cons.prems t
    by (subst get_services_loop.simps) (simp add: sent_def)
qed

lemma get_tasks_loop_pages:
  assumes "\<forall>x\<in>set pre. nextToken x \<noteq> None" and "nextToken p = None"
  shows "get_tasks_loop scripted cl sv acc tok (map Inr pre @ Inr p # rest, received) =
     Some (Inr (acc @ concat (map taskArns (pre @ [p]))),
           (rest, received @ map (\<lambda>t. list_tasks cl (sent sv) (sent t)) (tok # map nextToken pre)))"
  using assms
proof (induction pre arbitrary: acc tok received)
  case Nil
  then show ?case
    by (subst get_tasks_loop.simps) (simp add: sent_def)
next
  case (Cons x pre)
  then obtain t where t: "nextToken x = Some t" by auto
  show ?case
    using Cons.IH [of "acc @ taskArns x" "Some t"] Cons.prems t
    by (subst get_tasks_loop.simps) (simp add: sent_def)
qed

text \<open>The same script with a failing call in the place of the last page.\<close>

lemma get_clusters_loop_error:
  assumes "\<forall>x\<in>set pre. nextToken x \<noteq> None"
  shows "get_clusters_loop scripted acc tok (map Inr pre @ Inl e # rest, received) =
     Some (Inl e, (rest, received @ map (\<lambda>t. list_clusters (sent t)) (tok # map nextToken pre)))"
  using assms
proof (induction pre arbitrary: acc tok received)
  case Nil
  then show ?case
    by (subst get_clusters_loop.simps) (simp add: sent_def)
next
  case (Cons x pre)
  then obtain t where t: "nextToken x = Some t" by auto
  show ?case
    using Cons.IH [of "acc @ clusterArns x" "Some t"] Cons.prems t
    by (subst get_clusters_loop.simps) (simp add: sent_def)
qed

lemma get_services_loop_error:
  assumes "\<forall>x\<in>set pre. nextToken x \<noteq> None"
  shows "get_services_loop scripted cl acc tok (map Inr pre @ Inl e # rest, received) =
     Some (Inl e, (rest, received @ map (\<lambda>t. list_services cl (sent t)) (tok # map nextToken pre)))"
  using assms
proof (induction pre arbitrary: acc tok received)
  case Nil
  then show ?case
    by (subst get_services_loop.simps) (simp add: sent_def)
next
  case (Cons x pre)
  then obtain t where t: "nextToken x = Some t" by auto
  show ?case
    using Cons.IH [of "acc @ serviceArns x" "Some t"] Cons.prems t
    by (subst get_services_loop.simps) (simp add: sent_def)
qed

lemma get_tasks_loop_error:
  assumes "\<forall>x\<in>set pre. nextToken x \<noteq> None"
  shows "get_tasks_loop scripted cl sv acc tok (map Inr pre @ Inl e # rest, received) =
     Some (Inl e, (rest, received @ map (\<lambda>t. list_tasks cl (sent sv) (sent t)) (tok # map nextToken pre)))"
  using assms
proof (induction pre arbitrary: acc tok received)
  case Nil
  then show ?case
    by (subst get_tasks_loop.simps) (simp add: sent_def)
next
  case (Cons x pre)
  then obtain t where t: "nextToken x = Some t" by auto
  show ?case
    using Cons.IH [of "acc @ taskArns x" "Some t"] Cons.prems t
    by (subst get_tasks_loop.simps) (simp add: sent_def)
qed

text \<open>
  Both endings together: the calls of a run that ends with a page without a token or with a
  failing call.
\<close>

lemma get_clusters_loop_calls:
  assumes "\<forall>x\<in>set pre. nextToken x \<noteq> None"
    and "case fin of Inl e \<Rightarrow> True | Inr p \<Rightarrow> nextToken p = None"
  shows "\<exists>r. get_clusters_loop scripted acc tok (map Inr pre @ fin # rest, received) =
     Some (r, (rest, received @ map (\<lambda>t. list_clusters (sent t)) (tok # map nextToken pre)))"
proof (cases fin)
  case (Inl e)
  with assms get_clusters_loop_error [of pre acc tok e rest received] show ?thesis by simp
next
  case (Inr p)
  with assms get_clusters_loop_pages [of pre p acc tok rest received] show ?thesis by simp
qed

lemma get_services_loop_calls:
  assumes "\<forall>x\<in>set pre. nextToken x \<noteq> None"
    and "case fin of Inl e \<Rightarrow> True | Inr p \<Rightarrow> nextToken p = None"
  shows "\<exists>r. get_services_loop scripted cl acc tok (map Inr pre @ fin # rest, received) =
     Some (r, (rest, received @ map (\<lambda>t. list_services cl (sent t)) (tok # map nextToken pre)))"
proof (cases fin)
  case (Inl e)
  with assms get_services_loop_error [of pre cl acc tok e rest received] show ?thesis by simp
next
  case (Inr p)
  with assms get_services_loop_pages [of pre p cl acc tok rest received] show ?thesis by simp
qed

lemma get_tasks_loop_calls:
  assumes "\<forall>x\<in>set pre. nextToken x \<noteq> None"
    and "case fin of Inl e \<Rightarrow> True | Inr p \<Rightarrow> nextToken p = None"
  shows "\<exists>r. get_tasks_loop scripted cl sv acc tok (map Inr pre @ fin # rest, received) =
     Some (r, (rest, received @ map (\<lambda>t. list_tasks cl (sent sv) (sent t)) (tok # map nextToken pre)))"
proof (cases fin)
  case (Inl e)
  with assms get_tasks_loop_error [of pre cl sv acc tok e rest received] show ?thesis by simp
next
  case (Inr p)
  with assms get_tasks_loop_pages [of pre p cl sv acc tok rest received] show ?thesis by simp
qed

lemma sent_truthy: "truthy t \<Longrightarrow> sent t = t"
  by (simp add: sent_def)

subsection \<open>The detail loops on a scripted client\<close>

lemma get_task_details_loop_ok:
  "length rs = length chunks \<Longrightarrow>
   get_task_details_loop scripted c chunks acc (map Inr rs @ rest, received) =
     (Inr (acc @ concat (map response_tasks rs)),
      (rest, received @ map (describe_tasks c) chunks))"
proof (induction chunks arbitrary: rs acc received)
  case Nil
  then show ?case by simp
next
  case (Cons chunk chunks)
  then obtain r rs' where "rs = r # rs'" by (cases rs) auto
  with Cons show ?case by simp
qed

lemma get_service_details_loop_ok:
  "length rs = length chunks \<Longrightarrow>
   get_service_details_loop scripted c chunks acc (map Inr rs @ rest, received) =
     (Inr (acc @ concat (map response_services rs)),
      (rest, received @ map (describe_services c) chunks))"
proof (induction chunks arbitrary: rs acc received)
  case Nil
  then show ?case by simp
next
  case (Cons chunk chunks)
  then obtain r rs' where "rs = r # rs'" by (cases rs) auto
  with Cons show ?case by simp
qed

lemma get_task_details_loop_error:
  "length rs < length chunks \<Longrightarrow>
   get_task_details_loop scripted c chunks acc (map Inr rs @ Inl e # rest, received) =
     (Inl e, (rest, received @ map (describe_tasks c) (take (Suc (length rs)) chunks)))"
proof (induction chunks arbitrary: rs acc received)
  case Nil
  then show ?case by simp
next
  case (Cons chunk chunks)
  show ?case
  proof (cases rs)
    case Nil
    then show ?thesis by simp
  next
    case (Cons r rs')
    with Cons.prems Cons.IH [of rs'] show ?thesis by simp
  qed
qed

lemma get_service_details_loop_error:
  "length rs < length chunks \<Longrightarrow>
   get_service_details_loop scripted c chunks acc (map Inr rs @ Inl e # rest, received) =
     (Inl e, (rest, received @ map (describe_services c) (take (Suc (length rs)) chunks)))"
proof (induction chunks arbitrary: rs acc received)
  case Nil
  then show ?case by simp
next
  case (Cons chunk chunks)
  show ?case
  proof (cases rs)
    case Nil
    then show ?thesis by simp
  next
    case (Cons r rs')
    with Cons.prems Cons.IH [of rs'] show ?thesis by simp
  qed
qed

subsection \<open>The status count\<close>

lemma map_of_incr:
  "map_of (incr d k) = (map_of d)(k \<mapsto> (case map_of d k of None \<Rightarrow> 0 | Some c \<Rightarrow> c) + 1)"
  by (induction d k rule: incr.induct) (auto simp: fun_eq_iff)

lemma keys_incr: "fst ` set (incr d k) = insert k (fst ` set d)"
  by (induction d k rule: incr.induct) auto

lemma distinct_incr: "distinct (map fst d) \<Longrightarrow> distinct (map fst (incr d k))"
  by (induction d k rule: incr.induct) (auto simp: keys_incr)

lemma sum_incr: "sum_list (map snd (incr d k)) = sum_list (map snd d) + 1"
  by (induction d k rule: incr.induct) auto

lemma pos_incr: "list_all (\<lambda>(k, c). 1 \<le> c) d \<Longrightarrow> list_all (\<lambda>(k, c). 1 \<le> c) (incr d k)"
  by (induction d k rule: incr.induct) auto

lemma sum_keys_alist:
  "distinct (map fst xs) \<Longrightarrow>
     (\<Sum>k\<in>fst ` set xs. the (map_of xs k)) = sum_list (map snd (xs :: ('k \<times> int) list))"
proof (induction xs)
  case Nil
  then show ?case by simp
next
  case (Cons x xs)
  obtain k c where x: "x = (k, c)" by (cases x)
  from Cons.prems x have k: "k \<notin> fst ` set xs" and d: "distinct (map fst xs)" by auto
  have "(\<Sum>k'\<in>fst ` set xs. the (map_of (x # xs) k')) = (\<Sum>k'\<in>fst ` set xs. the (map_of xs k'))"
    using k x by (intro sum.cong) auto
  with Cons.IH [OF d] k x show ?case by simp
qed

lemma map_of_status_count_loop:
  "map_of (status_count_loop d ds) st =
     (if st \<in> lastStatus ` set ds
      then Some ((case map_of d st of None \<Rightarrow> 0 | Some c \<Rightarrow> c) +
                 int (length (filter (\<lambda>t. lastStatus t = st) ds)))
      else map_of d st)"
proof (induction ds arbitrary: d)
  case Nil
  then show ?case by simp
next
  case (Cons t ds)
  show ?case
    by (auto simp: Cons.IH map_of_incr filter_empty_conv image_iff split: option.splits)
qed

lemma keys_status_count_loop:
  "fst ` set (status_count_loop d ds) = fst ` set d \<union> lastStatus ` set ds"
  by (induction ds arbitrary: d) (auto simp: keys_incr)

lemma distinct_status_count_loop:
  "distinct (map fst d) \<Longrightarrow> distinct (map fst (status_count_loop d ds))"
  by (induction ds arbitrary: d) (auto simp: distinct_incr)

lemma sum_status_count_loop:
  "sum_list (map snd (status_count_loop d ds)) = sum_list (map snd d) + int (length ds)"
  by (induction ds arbitrary: d) (auto simp: sum_incr)

lemma pos_status_count_loop:
  "list_all (\<lambda>(k, c). 1 \<le> c) d \<Longrightarrow> list_all (\<lambda>(k, c). 1 \<le> c) (status_count_loop d ds)"
  by (induction ds arbitrary: d) (auto simp: pos_incr)

lemma status_count_loop_statuses:
  "map lastStatus ds = map lastStatus ds' \<Longrightarrow> status_count_loop d ds = status_count_loop d ds'"
proof (induction ds arbitrary: d ds')
  case Nil
  then show ?case by simp
next
  case (Cons t ds)
  then obtain t' ds'' where "ds' = t' # ds''" by (cases ds') auto
  with Cons show ?case by simp
qed

section \<open>The claims\<close>

subsection \<open>truncate\_string\<close>

text \<open>
  Claim C10. For every string \<open>s\<close> and every \<open>max_length\<close> of at least 3,
  \<open>truncate_string s max_length\<close> is \<open>s\<close> itself when \<open>s\<close> is no longer than
  \<open>max_length\<close>; otherwise it has exactly \<open>max_length\<close> characters, its last three
  characters are \<open>...\<close>, and its first \<open>max_length - 3\<close> characters are the prefix of \<open>s\<close>
  of that length.
\<close>

theorem truncate_string_spec:
  assumes "3 \<le> max_length"
  shows "(int (length s) \<le> max_length \<longrightarrow> truncate_string s max_length = s) \<and>
         (max_length < int (length s) \<longrightarrow>
            int (length (truncate_string s max_length)) = max_length \<and>
            drop (nat max_length - 3) (truncate_string s max_length) = ''...'' \<and>
            take (nat max_length - 3) (truncate_string s max_length) = take (nat max_length - 3) s)"
  using assms by (auto simp: truncate_string_def slice_to_def nat_diff_distrib)

theorem truncate_string_spec_witness:
  "(3::int) \<le> 8 \<and> truncate_string ''cluster'' 8 = ''cluster'' \<and>
   truncate_string ''deployment completed'' 8 = ''deplo...'' \<and>
   int (length (truncate_string ''deployment completed'' 8)) = 8 \<and>
   drop (nat 8 - 3) (truncate_string ''deployment completed'' 8) = ''...'' \<and>
   take (nat 8 - 3) (truncate_string ''deployment completed'' 8) = take (nat 8 - 3) ''deployment completed''"
  using truncate_string_spec [of 8 "''deployment completed''"] truncate_string_spec [of 8 "''cluster''"]
  by (simp add: truncate_string_def slice_to_def)

subsection \<open>Paginated listing\<close>

text \<open>
  Claim C1. Let the remote listing operation answer with any finite sequence of pages that
  carry a continuation token, followed by a page that carries none (and then with anything
  else). Each of \<open>get_clusters\<close>, \<open>get_services\<close> and \<open>get_tasks\<close> returns, and its
  result is the concatenation of the identifiers of these pages, in the order the pages
  came; the result holds identifiers only, no token. No call is issued after the first page
  without a token: the calls are one for each of these pages, and the rest of the script is
  left untouched.
\<close>

theorem paginated_listing_concat:
  "((\<forall>x\<in>set cs. nextToken x \<noteq> None) \<and> nextToken c = None \<longrightarrow>
      get_clusters scripted (map Inr cs @ Inr c # rest_c, []) =
        Some (Inr (concat (map clusterArns (cs @ [c]))),
              (rest_c, map (\<lambda>t. list_clusters (sent t)) (None # map nextToken cs)))) \<and>
   ((\<forall>x\<in>set ss. nextToken x \<noteq> None) \<and> nextToken sv = None \<longrightarrow>
      get_services scripted cluster_arn (map Inr ss @ Inr sv # rest_s, []) =
        Some (Inr (concat (map serviceArns (ss @ [sv]))),
              (rest_s, map (\<lambda>t. list_services cluster_arn (sent t)) (None # map nextToken ss)))) \<and>
   ((\<forall>x\<in>set ts. nextToken x \<noteq> None) \<and> nextToken tk = None \<longrightarrow>
      get_tasks scripted cluster_arn service_arn (map Inr ts @ Inr tk # rest_t, []) =
        Some (Inr (concat (map taskArns (ts @ [tk]))),
              (rest_t, map (\<lambda>t. list_tasks cluster_arn (sent service_arn) (sent t))
                         (None # map nextToken ts))))"
  using get_clusters_loop_pages [of cs c "[]" None rest_c "[]"]
    get_services_loop_pages [of ss sv cluster_arn "[]" None rest_s "[]"]
    get_tasks_loop_pages [of ts tk cluster_arn service_arn "[]" None rest_t "[]"]
  by (simp add: get_clusters_def get_services_def get_tasks_def)

theorem paginated_listing_concat_witness:
  "get_clusters scripted
     ([Inr \<lparr>nextToken = Some ''t1'', clusterArns = [''c1'', ''c2'']\<rparr>,
       Inr \<lparr>nextToken = Some ''t2'', clusterArns = []\<rparr>,
       Inr \<lparr>nextToken = None, clusterArns = [''c3'']\<rparr>,
       Inr \<lparr>nextToken = None, clusterArns = [''c4'']\<rparr>], []) =
     Some (Inr [''c1'', ''c2'', ''c3''],
           ([Inr \<lparr>nextToken = None, clusterArns = [''c4'']\<rparr>],
            [list_clusters None, list_clusters (Some ''t1''), list_clusters (Some ''t2'')])) \<and>
   get_services scripted ''prod''
     ([Inr \<lparr>nextToken = Some ''t1'', serviceArns = [''s1'']\<rparr>,
       Inr \<lparr>nextToken = None, serviceArns = [''s2'', ''s3'']\<rparr>], []) =
     Some (Inr [''s1'', ''s2'', ''s3''],
           ([], [list_services ''prod'' None, list_services ''prod'' (Some ''t1'')])) \<and>
   get_tasks scripted ''prod'' (Some ''web'')
     ([Inr \<lparr>nextToken = Some ''t1'', taskArns = [''k1'']\<rparr>,
       Inr \<lparr>nextToken = None, taskArns = [''k2'']\<rparr>], []) =
     Some (Inr [''k1'', ''k2''],
           ([], [list_tasks ''prod'' (Some ''web'') None,
                 list_tasks ''prod'' (Some ''web'') (Some ''t1'')]))"
  using paginated_listing_concat
    [of "[\<lparr>nextToken = Some ''t1'', clusterArns = [''c1'', ''c2'']\<rparr>,
          \<lparr>nextToken = Some ''t2'', clusterArns = []\<rparr>]"
        "\<lparr>nextToken = None, clusterArns = [''c3'']\<rparr>"
        "[Inr \<lparr>nextToken = None, clusterArns = [''c4'']\<rparr>]"
        "[\<lparr>nextToken = Some ''t1'', serviceArns = [''s1'']\<rparr>]"
        "\<lparr>nextToken = None, serviceArns = [''s2'', ''s3'']\<rparr>"
        "''prod''" "[]"
        "[\<lparr>nextToken = Some ''t1'', taskArns = [''k1'']\<rparr>]"
        "\<lparr>nextToken = None, taskArns = [''k2'']\<rparr>"
        "Some ''web''" "[]"]
  by (simp add: sent_def)

text \<open>
  Claim C7. The listing functions issue exactly one call for each page the remote side
  returns: on pages that carry a token followed by a page without one, each of
  \<open>get_clusters\<close>, \<open>get_services\<close> and \<open>get_tasks\<close> returns the identifiers of all
  these pages in order, and the calls it has issued are as many as the pages, the first
  without a token and each later one with the token of the page before. For a listing of two
  pages, the first with three identifiers and a token, the second with two identifiers and no
  token, each function returns the five identifiers in order after exactly two calls. For an
  empty scope, where the first page has no identifier and no token, each function returns the
  empty sequence, which is not an error, after exactly one call.
\<close>

theorem one_call_per_page:
  "((\<forall>x\<in>set cs. nextToken x \<noteq> None) \<and> nextToken c = None \<longrightarrow>
      (\<exists>received.
         get_clusters scripted (map Inr cs @ Inr c # rest_c, []) =
           Some (Inr (concat (map clusterArns (cs @ [c]))), (rest_c, received)) \<and>
         received = map (\<lambda>t. list_clusters (sent t)) (None # map nextToken cs) \<and>
         length received = length (cs @ [c]))) \<and>
   ((\<forall>x\<in>set ss. nextToken x \<noteq> None) \<and> nextToken sv = None \<longrightarrow>
      (\<exists>received.
         get_services scripted cluster_arn (map Inr ss @ Inr sv # rest_s, []) =
           Some (Inr (concat (map serviceArns (ss @ [sv]))), (rest_s, received)) \<and>
         received = map (\<lambda>t. list_services cluster_arn (sent t)) (None # map nextToken ss) \<and>
         length received = length (ss @ [sv]))) \<and>
   ((\<forall>x\<in>set ts. nextToken x \<noteq> None) \<and> nextToken tk = None \<longrightarrow>
      (\<exists>received.
         get_tasks scripted cluster_arn service_arn (map Inr ts @ Inr tk # rest_t, []) =
           Some (Inr (concat (map taskArns (ts @ [tk]))), (rest_t, received)) \<and>
         received = map (\<lambda>t. list_tasks cluster_arn (sent service_arn) (sent t))
                      (None # map nextToken ts) \<and>
         length received = length (ts @ [tk]))) \<and>
   get_clusters scripted
     ([Inr \<lparr>nextToken = Some t, clusterArns = [a1, a2, a3]\<rparr>,
       Inr \<lparr>nextToken = None, clusterArns = [a4, a5]\<rparr>], []) =
     Some (Inr [a1, a2, a3, a4, a5],
           ([], [list_clusters None, list_clusters (sent (Some t))])) \<and>
   get_services scripted cluster_arn
     ([Inr \<lparr>nextToken = Some t, serviceArns = [a1, a2, a3]\<rparr>,
       Inr \<lparr>nextToken = None, serviceArns = [a4, a5]\<rparr>], []) =
     Some (Inr [a1, a2, a3, a4, a5],
           ([], [list_services cluster_arn None, list_services cluster_arn (sent (Some t))])) \<and>
   get_tasks scripted cluster_arn service_arn
     ([Inr \<lparr>nextToken = Some t, taskArns = [a1, a2, a3]\<rparr>,
       Inr \<lparr>nextToken = None, taskArns = [a4, a5]\<rparr>], []) =
     Some (Inr [a1, a2, a3, a4, a5],
           ([], [list_tasks cluster_arn (sent service_arn) None,
                 list_tasks cluster_arn (sent service_arn) (sent (Some t))])) \<and>
   get_clusters scripted ([Inr \<lparr>nextToken = None, clusterArns = []\<rparr>], []) =
     Some (Inr [], ([], [list_clusters None])) \<and>
   get_services scripted cluster_arn ([Inr \<lparr>nextToken = None, serviceArns = []\<rparr>], []) =
     Some (Inr [], ([], [list_services cluster_arn None])) \<and>
   get_tasks scripted cluster_arn service_arn ([Inr \<lparr>nextToken = None, taskArns = []\<rparr>], []) =
     Some (Inr [], ([], [list_tasks cluster_arn (sent service_arn) None]))"
proof -
  have c2: "get_clusters scripted
     ([Inr \<lparr>nextToken = Some t, clusterArns = [a1, a2, a3]\<rparr>,
       Inr \<lparr>nextToken = None, clusterArns = [a4, a5]\<rparr>], []) =
     Some (Inr [a1, a2, a3, a4, a5],
           ([], [list_clusters None, list_clusters (sent (Some t))]))"
    using get_clusters_loop_pages
      [of "[\<lparr>nextToken = Some t, clusterArns = [a1, a2, a3]\<rparr>]"
          "\<lparr>nextToken = None, clusterArns = [a4, a5]\<rparr>" "[]" None "[]" "[]"]
    by (simp add: get_clusters_def sent_def)
  have s2: "get_services scripted cluster_arn
     ([Inr \<lparr>nextToken = Some t, serviceArns = [a1, a2, a3]\<rparr>,
       Inr \<lparr>nextToken = None, serviceArns = [a4, a5]\<rparr>], []) =
     Some (Inr [a1, a2, a3, a4, a5],
           ([], [list_services cluster_arn None, list_services cluster_arn (sent (Some t))]))"
    using get_services_loop_pages
      [of "[\<lparr>nextToken = Some t, serviceArns = [a1, a2, a3]\<rparr>]"
          "\<lparr>nextToken = None, serviceArns = [a4, a5]\<rparr>" cluster_arn "[]" None "[]" "[]"]
    by (simp add: get_services_def sent_def)
  have t2: "get_tasks scripted cluster_arn service_arn
     ([Inr \<lparr>nextToken = Some t, taskArns = [a1, a2, a3]\<rparr>,
       Inr \<lparr>nextToken = None, taskArns = [a4, a5]\<rparr>], []) =
     Some (Inr [a1, a2, a3, a4, a5],
           ([], [list_tasks cluster_arn (sent service_arn) None,
                 list_tasks cluster_arn (sent service_arn) (sent (Some t))]))"
    using get_tasks_loop_pages
      [of "[\<lparr>nextToken = Some t, taskArns = [a1, a2, a3]\<rparr>]"
          "\<lparr>nextToken = None, taskArns = [a4, a5]\<rparr>" cluster_arn service_arn "[]" None "[]" "[]"]
    by (simp add: get_tasks_def sent_def)
  have c0: "get_clusters scripted ([Inr \<lparr>nextToken = None, clusterArns = []\<rparr>], []) =
     Some (Inr [], ([], [list_clusters None]))"
    using get_clusters_loop_pages
      [of "[]" "\<lparr>nextToken = None, clusterArns = []\<rparr>" "[]" None "[]" "[]"]
    by (simp add: get_clusters_def sent_def)
  have s0: "get_services scripted cluster_arn ([Inr \<lparr>nextToken = None, serviceArns = []\<rparr>], []) =
     Some (Inr [], ([], [list_services cluster_arn None]))"
    using get_services_loop_pages
      [of "[]" "\<lparr>nextToken = None, serviceArns = []\<rparr>" cluster_arn "[]" None "[]" "[]"]
    by (simp add: get_services_def sent_def)
  have t0: "get_tasks scripted cluster_arn service_arn ([Inr \<lparr>nextToken = None, taskArns = []\<rparr>], []) =
     Some (Inr [], ([], [list_tasks cluster_arn (sent service_arn) None]))"
    using get_tasks_loop_pages
      [of "[]" "\<lparr>nextToken = None, taskArns = []\<rparr>" cluster_arn service_arn "[]" None "[]" "[]"]
    by (simp add: get_tasks_def sent_def)
  show ?thesis
    using get_clusters_loop_pages [of cs c "[]" None rest_c "[]"]
      get_services_loop_pages [of ss sv cluster_arn "[]" None rest_s "[]"]
      get_tasks_loop_pages [of ts tk cluster_arn service_arn "[]" None rest_t "[]"]
    unfolding c2 s2 t2 c0 s0 t0
    by (simp add: get_clusters_def get_services_def get_tasks_def)
qed

theorem one_call_per_page_witness:
  "get_clusters scripted
     ([Inr \<lparr>nextToken = Some ''t1'', clusterArns = [''c1'', ''c2'', ''c3'']\<rparr>,
       Inr \<lparr>nextToken = None, clusterArns = [''c4'', ''c5'']\<rparr>], []) =
     Some (Inr [''c1'', ''c2'', ''c3'', ''c4'', ''c5''],
           ([], [list_clusters None, list_clusters (Some ''t1'')])) \<and>
   get_services scripted ''prod''
     ([Inr \<lparr>nextToken = Some ''t1'', serviceArns = [''s1'', ''s2'', ''s3'']\<rparr>,
       Inr \<lparr>nextToken = None, serviceArns = [''s4'', ''s5'']\<rparr>], []) =
     Some (Inr [''s1'', ''s2'', ''s3'', ''s4'', ''s5''],
           ([], [list_services ''prod'' None, list_services ''prod'' (Some ''t1'')])) \<and>
   get_tasks scripted ''prod'' (Some ''web'')
     ([Inr \<lparr>nextToken = Some ''t1'', taskArns = [''k1'', ''k2'', ''k3'']\<rparr>,
       Inr \<lparr>nextToken = None, taskArns = [''k4'', ''k5'']\<rparr>], []) =
     Some (Inr [''k1'', ''k2'', ''k3'', ''k4'', ''k5''],
           ([], [list_tasks ''prod'' (Some ''web'') None,
                 list_tasks ''prod'' (Some ''web'') (Some ''t1'')])) \<and>
   get_clusters scripted ([Inr \<lparr>nextToken = None, clusterArns = []\<rparr>], []) =
     Some (Inr [], ([], [list_clusters None])) \<and>
   get_services scripted ''prod'' ([Inr \<lparr>nextToken = None, serviceArns = []\<rparr>], []) =
     Some (Inr [], ([], [list_services ''prod'' None])) \<and>
   get_tasks scripted ''prod'' (Some ''web'') ([Inr \<lparr>nextToken = None, taskArns = []\<rparr>], []) =
     Some (Inr [], ([], [list_tasks ''prod'' (Some ''web'') None]))"
  using one_call_per_page
    [of "[\<lparr>nextToken = Some ''t1'', clusterArns = [''c1'', ''c2'', ''c3'']\<rparr>]"
        "\<lparr>nextToken = None, clusterArns = [''c4'', ''c5'']\<rparr>" "[]"
        "[\<lparr>nextToken = Some ''t1'', serviceArns = [''s1'', ''s2'', ''s3'']\<rparr>]"
        "\<lparr>nextToken = None, serviceArns = [''s4'', ''s5'']\<rparr>" "''prod''" "[]"
        "[\<lparr>nextToken = Some ''t1'', taskArns = [''k1'', ''k2'', ''k3'']\<rparr>]"
        "\<lparr>nextToken = None, taskArns = [''k4'', ''k5'']\<rparr>" "Some ''web''" "[]"
        "''t1''" "''x1''" "''x2''" "''x3''" "''x4''" "''x5''"]
  by (simp add: sent_def)

text \<open>
  Claim C5, as amended. In a run of a listing function that ends with a page without a token
  or with a failing call, every response that carries a continuation token other than the
  empty string is followed by a call that carries exactly this token.

  The claim as stated, for every token string, fails on the empty string: the guard
  \<^verbatim>\<open>if next_token:\<close> takes the empty string for no token, and the next call carries none.
\<close>

theorem nonempty_token_passed_back:
  "((\<forall>x\<in>set cs. nextToken x \<noteq> None) \<and>
    (case fin_c of Inl e \<Rightarrow> True | Inr c \<Rightarrow> nextToken c = None) \<and>
    i < length cs \<and> truthy (nextToken (cs ! i)) \<longrightarrow>
      (\<exists>r received.
         get_clusters scripted (map Inr cs @ fin_c # rest_c, []) = Some (r, (rest_c, received)) \<and>
         Suc i < length received \<and>
         received ! Suc i = list_clusters (nextToken (cs ! i)))) \<and>
   ((\<forall>x\<in>set ss. nextToken x \<noteq> None) \<and>
    (case fin_s of Inl e \<Rightarrow> True | Inr sv \<Rightarrow> nextToken sv = None) \<and>
    j < length ss \<and> truthy (nextToken (ss ! j)) \<longrightarrow>
      (\<exists>r received.
         get_services scripted cluster_arn (map Inr ss @ fin_s # rest_s, []) =
           Some (r, (rest_s, received)) \<and>
         Suc j < length received \<and>
         received ! Suc j = list_services cluster_arn (nextToken (ss ! j)))) \<and>
   ((\<forall>x\<in>set ts. nextToken x \<noteq> None) \<and>
    (case fin_t of Inl e \<Rightarrow> True | Inr tk \<Rightarrow> nextToken tk = None) \<and>
    k < length ts \<and> truthy (nextToken (ts ! k)) \<longrightarrow>
      (\<exists>r received.
         get_tasks scripted cluster_arn service_arn (map Inr ts @ fin_t # rest_t, []) =
           Some (r, (rest_t, received)) \<and>
         Suc k < length received \<and>
         received ! Suc k = list_tasks cluster_arn (sent service_arn) (nextToken (ts ! k))))"
proof -
  have c: "\<exists>r received.
         get_clusters scripted (map Inr cs @ fin_c # rest_c, []) = Some (r, (rest_c, received)) \<and>
         Suc i < length received \<and>
         received ! Suc i = list_clusters (nextToken (cs ! i))"
    if "\<forall>x\<in>set cs. nextToken x \<noteq> None"
      and "case fin_c of Inl e \<Rightarrow> True | Inr c \<Rightarrow> nextToken c = None"
      and "i < length cs" and "truthy (nextToken (cs ! i))"
  proof -
    from that(1,2) obtain r where
      "get_clusters scripted (map Inr cs @ fin_c # rest_c, []) =
         Some (r, (rest_c, map (\<lambda>t. list_clusters (sent t)) (None # map nextToken cs)))"
      using get_clusters_loop_calls [of cs fin_c "[]" None rest_c "[]"]
      by (auto simp: get_clusters_def)
    moreover have "map (\<lambda>t. list_clusters (sent t)) (None # map nextToken cs) ! Suc i =
        list_clusters (nextToken (cs ! i))"
      using that(3,4) by (simp add: sent_truthy)
    ultimately show ?thesis using that(3) by simp
  qed
  have s: "\<exists>r received.
         get_services scripted cluster_arn (map Inr ss @ fin_s # rest_s, []) =
           Some (r, (rest_s, received)) \<and>
         Suc j < length received \<and>
         received ! Suc j = list_services cluster_arn (nextToken (ss ! j))"
    if "\<forall>x\<in>set ss. nextToken x \<noteq> None"
      and "case fin_s of Inl e \<Rightarrow> True | Inr sv \<Rightarrow> nextToken sv = None"
      and "j < length ss" and "truthy (nextToken (ss ! j))"
  proof -
    from that(1,2) obtain r where
      "get_services scripted cluster_arn (map Inr ss @ fin_s # rest_s, []) =
         Some (r, (rest_s, map (\<lambda>t. list_services cluster_arn (sent t)) (None # map nextToken ss)))"
      using get_services_loop_calls [of ss fin_s cluster_arn "[]" None rest_s "[]"]
      by (auto simp: get_services_def)
    moreover have "map (\<lambda>t. list_services cluster_arn (sent t)) (None # map nextToken ss) ! Suc j =
        list_services cluster_arn (nextToken (ss ! j))"
      using that(3,4) by (simp add: sent_truthy)
    ultimately show ?thesis using that(3) by simp
  qed
  have t: "\<exists>r received.
         get_tasks scripted cluster_arn service_arn (map Inr ts @ fin_t # rest_t, []) =
           Some (r, (rest_t, received)) \<and>
         Suc k < length received \<and>
         received ! Suc k = list_tasks cluster_arn (sent service_arn) (nextToken (ts ! k))"
    if "\<forall>x\<in>set ts. nextToken x \<noteq> None"
      and "case fin_t of Inl e \<Rightarrow> True | Inr tk \<Rightarrow> nextToken tk = None"
      and "k < length ts" and "truthy (nextToken (ts ! k))"
  proof -
    from that(1,2) obtain r where
      "get_tasks scripted cluster_arn service_arn (map Inr ts @ fin_t # rest_t, []) =
         Some (r, (rest_t, map (\<lambda>t. list_tasks cluster_arn (sent service_arn) (sent t))
                             (None # map nextToken ts)))"
      using get_tasks_loop_calls [of ts fin_t cluster_arn service_arn "[]" None rest_t "[]"]
      by (auto simp: get_tasks_def)
    moreover have "map (\<lambda>t. list_tasks cluster_arn (sent service_arn) (sent t))
                     (None # map nextToken ts) ! Suc k =
        list_tasks cluster_arn (sent service_arn) (nextToken (ts ! k))"
      using that(3,4) by (simp add: sent_truthy)
    ultimately show ?thesis using that(3) by simp
  qed
  from c s t show ?thesis by blast
qed

theorem nonempty_token_passed_back_witness:
  "get_clusters scripted
     ([Inr \<lparr>nextToken = Some ''t1'', clusterArns = [''c1'']\<rparr>,
       Inr \<lparr>nextToken = Some ''t2'', clusterArns = [''c2'']\<rparr>,
       Inr \<lparr>nextToken = None, clusterArns = [''c3'']\<rparr>], []) =
     Some (Inr [''c1'', ''c2'', ''c3''],
           ([], [list_clusters None, list_clusters (Some ''t1''), list_clusters (Some ''t2'')])) \<and>
   get_services scripted ''prod''
     ([Inr \<lparr>nextToken = Some ''t1'', serviceArns = [''s1'']\<rparr>,
       Inl (ClientError ''Throttling'')], []) =
     Some (Inl (ClientError ''Throttling''),
           ([], [list_services ''prod'' None, list_services ''prod'' (Some ''t1'')])) \<and>
   get_tasks scripted ''prod'' (Some ''web'')
     ([Inr \<lparr>nextToken = Some ''t1'', taskArns = [''k1'']\<rparr>,
       Inr \<lparr>nextToken = None, taskArns = []\<rparr>], []) =
     Some (Inr [''k1''],
           ([], [list_tasks ''prod'' (Some ''web'') None,
                 list_tasks ''prod'' (Some ''web'') (Some ''t1'')]))"
  using nonempty_token_passed_back
    [of "[\<lparr>nextToken = Some ''t1'', clusterArns = [''c1'']\<rparr>,
          \<lparr>nextToken = Some ''t2'', clusterArns = [''c2'']\<rparr>]"
        "Inr \<lparr>nextToken = None, clusterArns = [''c3'']\<rparr>" 1 "[]"
        "[\<lparr>nextToken = Some ''t1'', serviceArns = [''s1'']\<rparr>]"
        "Inl (ClientError ''Throttling'')" 0 "''prod''" "[]"
        "[\<lparr>nextToken = Some ''t1'', taskArns = [''k1'']\<rparr>]"
        "Inr \<lparr>nextToken = None, taskArns = []\<rparr>" 0 "Some ''web''" "[]"]
  by (simp add: get_clusters_def get_services_def get_tasks_def get_clusters_loop.simps
      get_services_loop.simps get_tasks_loop.simps)

text \<open>
  The first response below carries the empty string as its token; the call that follows it
  is \<open>list_clusters None\<close>, the call without a token, and not \<open>list_clusters (Some [])\<close>.
\<close>

theorem empty_token_not_passed_back:
  "get_clusters scripted
     ([Inr \<lparr>nextToken = Some '''', clusterArns = [''c1'']\<rparr>,
       Inr \<lparr>nextToken = None, clusterArns = [''c2'']\<rparr>], []) =
     Some (Inr [''c1'', ''c2''], ([], [list_clusters None, list_clusters None])) \<and>
   list_clusters None \<noteq> list_clusters (Some '''')"
  by (simp add: get_clusters_def get_clusters_loop.simps)

subsection \<open>Batched detail fetch\<close>

text \<open>
  Claim C2. For a sequence of \<open>L\<close> identifiers, \<open>get_task_details\<close> (limit 100) and
  \<open>get_service_details\<close> (limit 10) issue exactly \<open>\<lceil>L / B\<rceil>\<close> detail calls when every
  call succeeds, which is \<open>(L + B - 1) div B\<close>; each call asks for at most \<open>B\<close>
  identifiers; the result is the concatenation of the records of the responses, in the order
  of the chunks. For \<open>L = 0\<close> no call is issued and the result is empty.
\<close>

theorem batched_detail_fetch_calls:
  "(length rs = (length task_arns + 99) div 100 \<longrightarrow>
      (\<exists>received.
         get_task_details scripted cluster_arn task_arns (map Inr rs @ rest, []) =
           (Inr (concat (map response_tasks rs)), (rest, received)) \<and>
         length received = (length task_arns + 99) div 100 \<and>
         (\<forall>q\<in>set received. length (requested q) \<le> 100))) \<and>
   (length rs' = (length service_arns + 9) div 10 \<longrightarrow>
      (\<exists>received.
         get_service_details scripted cluster_arn service_arns (map Inr rs' @ rest', []) =
           (Inr (concat (map response_services rs')), (rest', received)) \<and>
         length received = (length service_arns + 9) div 10 \<and>
         (\<forall>q\<in>set received. length (requested q) \<le> 10))) \<and>
   get_task_details scripted cluster_arn [] (script, []) = (Inr [], (script, [])) \<and>
   get_service_details scripted cluster_arn [] (script', []) = (Inr [], (script', []))"
proof -
  have t: "length rs = (length task_arns + 99) div 100 \<Longrightarrow>
      get_task_details scripted cluster_arn task_arns (map Inr rs @ rest, []) =
        (Inr (concat (map response_tasks rs)),
         (rest, map (describe_tasks cluster_arn) (task_chunks task_arns)))"
    using get_task_details_loop_ok [of rs "task_chunks task_arns" cluster_arn "[]" rest "[]"]
    by (cases "task_arns = []") (simp_all add: get_task_details_def length_task_chunks task_chunks_Nil)
  have s: "length rs' = (length service_arns + 9) div 10 \<Longrightarrow>
      get_service_details scripted cluster_arn service_arns (map Inr rs' @ rest', []) =
        (Inr (concat (map response_services rs')),
         (rest', map (describe_services cluster_arn) (service_chunks service_arns)))"
    using get_service_details_loop_ok [of rs' "service_chunks service_arns" cluster_arn "[]" rest' "[]"]
    by (cases "service_arns = []") (simp_all add: get_service_details_def length_service_chunks service_chunks_Nil)
  have tq: "\<forall>q\<in>set (map (describe_tasks cluster_arn) (task_chunks task_arns)).
              length (requested q) \<le> 100"
    by (auto dest: task_chunk_le)
  have sq: "\<forall>q\<in>set (map (describe_services cluster_arn) (service_chunks service_arns)).
              length (requested q) \<le> 10"
    by (auto dest: service_chunk_le)
  have lt: "length (map (describe_tasks cluster_arn) (task_chunks task_arns)) =
              (length task_arns + 99) div 100"
    by (simp add: length_task_chunks)
  have ls: "length (map (describe_services cluster_arn) (service_chunks service_arns)) =
              (length service_arns + 9) div 10"
    by (simp add: length_service_chunks)
  show ?thesis
    using t s tq sq lt ls
    by (simp add: get_task_details_def get_service_details_def)
qed

theorem batched_detail_fetch_calls_witness:
  "get_task_details scripted ''prod'' [''k1'', ''k2'', ''k3'']
     ([Inr \<lparr>response_tasks = [\<lparr>taskArn = ''k1'', lastStatus = ''RUNNING''\<rparr>,
                               \<lparr>taskArn = ''k3'', lastStatus = ''STOPPED''\<rparr>]\<rparr>,
       Inl (ClientError ''unused'')], []) =
     (Inr [\<lparr>taskArn = ''k1'', lastStatus = ''RUNNING''\<rparr>,
           \<lparr>taskArn = ''k3'', lastStatus = ''STOPPED''\<rparr>],
      ([Inl (ClientError ''unused'')], [describe_tasks ''prod'' [''k1'', ''k2'', ''k3'']])) \<and>
   get_service_details scripted ''prod''
     [''s1'', ''s2'', ''s3'', ''s4'', ''s5'', ''s6'', ''s7'', ''s8'', ''s9'', ''s10'', ''s11'']
     ([Inr \<lparr>response_services = [\<lparr>serviceArn = ''s1'', serviceName = ''web''\<rparr>]\<rparr>,
       Inr \<lparr>response_services = [\<lparr>serviceArn = ''s11'', serviceName = ''db''\<rparr>]\<rparr>], []) =
     (Inr [\<lparr>serviceArn = ''s1'', serviceName = ''web''\<rparr>,
           \<lparr>serviceArn = ''s11'', serviceName = ''db''\<rparr>],
      ([], [describe_services ''prod''
              [''s1'', ''s2'', ''s3'', ''s4'', ''s5'', ''s6'', ''s7'', ''s8'', ''s9'', ''s10''],
            describe_services ''prod'' [''s11'']])) \<and>
   get_task_details scripted ''prod'' []
     ([Inl (ClientError ''unused'') :: error + describe_tasks_response], []) =
     (Inr [], ([Inl (ClientError ''unused'')], []))"
  using batched_detail_fetch_calls
    [of "[\<lparr>response_tasks = [\<lparr>taskArn = ''k1'', lastStatus = ''RUNNING''\<rparr>,
                               \<lparr>taskArn = ''k3'', lastStatus = ''STOPPED''\<rparr>]\<rparr>]"
        "[''k1'', ''k2'', ''k3'']" "''prod''" "[Inl (ClientError ''unused'')]"
        "[\<lparr>response_services = [\<lparr>serviceArn = ''s1'', serviceName = ''web''\<rparr>]\<rparr>,
          \<lparr>response_services = [\<lparr>serviceArn = ''s11'', serviceName = ''db''\<rparr>]\<rparr>]"
        "[''s1'', ''s2'', ''s3'', ''s4'', ''s5'', ''s6'', ''s7'', ''s8'', ''s9'', ''s10'', ''s11'']"
        "[]" "[Inl (ClientError ''unused'')]" "[]"]
  by (simp add: get_task_details_def get_service_details_def task_chunks_def
      service_chunks_def range_step.simps slice_def)

text \<open>
  Claim C3. The chunks that \<open>get_task_details\<close> and \<open>get_service_details\<close> request are
  contiguous pieces of the input: chunk \<open>k\<close> is the piece that starts at position
  \<open>k * B\<close> and has at most \<open>B\<close> elements, the chunks concatenated in their order give
  the input back, and the calls issued ask for exactly these chunks, in this order. An input
  of 250 identifiers is cut with limit 100 into chunks of 100, 100 and 50 identifiers.
\<close>

theorem chunks_partition_input:
  "concat (task_chunks task_arns) = task_arns \<and>
   (\<forall>ch\<in>set (task_chunks task_arns). length ch \<le> 100) \<and>
   (\<forall>k<length (task_chunks task_arns).
      task_chunks task_arns ! k = take 100 (drop (100 * k) task_arns)) \<and>
   (length rs = length (task_chunks task_arns) \<longrightarrow>
      snd (snd (get_task_details scripted cluster_arn task_arns (map Inr rs @ rest, []))) =
        map (describe_tasks cluster_arn) (task_chunks task_arns)) \<and>
   (length task_arns = 250 \<longrightarrow> map length (task_chunks task_arns) = [100, 100, 50]) \<and>
   concat (service_chunks service_arns) = service_arns \<and>
   (\<forall>ch\<in>set (service_chunks service_arns). length ch \<le> 10) \<and>
   (\<forall>k<length (service_chunks service_arns).
      service_chunks service_arns ! k = take 10 (drop (10 * k) service_arns)) \<and>
   (length rs' = length (service_chunks service_arns) \<longrightarrow>
      snd (snd (get_service_details scripted cluster_arn service_arns (map Inr rs' @ rest', []))) =
        map (describe_services cluster_arn) (service_chunks service_arns))"
proof -
  have t: "length rs = length (task_chunks task_arns) \<Longrightarrow>
      snd (snd (get_task_details scripted cluster_arn task_arns (map Inr rs @ rest, []))) =
        map (describe_tasks cluster_arn) (task_chunks task_arns)"
    using get_task_details_loop_ok [of rs "task_chunks task_arns" cluster_arn "[]" rest "[]"]
    by (cases "task_arns = []")
      (simp_all add: get_task_details_def task_chunks_Nil)
  have s: "length rs' = length (service_chunks service_arns) \<Longrightarrow>
      snd (snd (get_service_details scripted cluster_arn service_arns (map Inr rs' @ rest', []))) =
        map (describe_services cluster_arn) (service_chunks service_arns)"
    using get_service_details_loop_ok [of rs' "service_chunks service_arns" cluster_arn "[]" rest' "[]"]
    by (cases "service_arns = []")
      (simp_all add: get_service_details_def service_chunks_Nil)
  show ?thesis
    using t s
    by (simp add: concat_task_chunks concat_service_chunks task_chunk_le service_chunk_le
        task_chunks_nth service_chunks_nth task_chunks_250)
qed

theorem chunks_partition_input_witness:
  "length (replicate 250 ''arn'') = 250 \<and>
   map length (task_chunks (replicate 250 ''arn'')) = [100, 100, 50] \<and>
   concat (task_chunks (replicate 250 ''arn'')) = replicate 250 ''arn'' \<and>
   task_chunks (replicate 250 ''arn'') ! 2 = replicate 50 ''arn'' \<and>
   service_chunks [''s1'', ''s2'', ''s3'', ''s4'', ''s5'', ''s6'', ''s7'', ''s8'', ''s9'', ''s10'', ''s11''] =
     [[''s1'', ''s2'', ''s3'', ''s4'', ''s5'', ''s6'', ''s7'', ''s8'', ''s9'', ''s10''], [''s11'']] \<and>
   snd (snd (get_task_details scripted ''prod'' [''k1'', ''k2'']
     ([Inr \<lparr>response_tasks = []\<rparr>], []))) = [describe_tasks ''prod'' [''k1'', ''k2'']]"
  using chunks_partition_input
    [of "replicate 250 ''arn''" "[]" "''prod''" "[]"
        "[''s1'', ''s2'', ''s3'', ''s4'', ''s5'', ''s6'', ''s7'', ''s8'', ''s9'', ''s10'', ''s11'']"
        "[]" "[]"]
    chunks_partition_input
    [of "[''k1'', ''k2'']" "[\<lparr>response_tasks = []\<rparr>]" "''prod''" "[]" "[]" "[]" "[]"]
  by (simp add: task_chunks_def service_chunks_def range_step.simps slice_def
      get_task_details_def)

subsection \<open>Failing calls\<close>

text \<open>
  Claim C6. When a remote call fails, in a listing loop after any number of pages or in a
  detail fetch after any number of chunks, the function ends with the error of that call,
  unchanged, as its whole result: nothing of the pages or chunks fetched before is returned.
  The failing call is the last call issued, so it is not tried again, and the rest of the
  script is left unread.
\<close>

theorem remote_failure_propagates:
  "((\<forall>x\<in>set cs. nextToken x \<noteq> None) \<longrightarrow>
      get_clusters scripted (map Inr cs @ Inl e # rest_c, []) =
        Some (Inl e, (rest_c, map (\<lambda>t. list_clusters (sent t)) (None # map nextToken cs)))) \<and>
   ((\<forall>x\<in>set ss. nextToken x \<noteq> None) \<longrightarrow>
      get_services scripted cluster_arn (map Inr ss @ Inl e # rest_s, []) =
        Some (Inl e, (rest_s, map (\<lambda>t. list_services cluster_arn (sent t)) (None # map nextToken ss)))) \<and>
   ((\<forall>x\<in>set ts. nextToken x \<noteq> None) \<longrightarrow>
      get_tasks scripted cluster_arn service_arn (map Inr ts @ Inl e # rest_t, []) =
        Some (Inl e, (rest_t, map (\<lambda>t. list_tasks cluster_arn (sent service_arn) (sent t))
                                (None # map nextToken ts)))) \<and>
   (length rs < length (task_chunks task_arns) \<longrightarrow>
      get_task_details scripted cluster_arn task_arns (map Inr rs @ Inl e # rest, []) =
        (Inl e, (rest, map (describe_tasks cluster_arn)
                         (take (Suc (length rs)) (task_chunks task_arns))))) \<and>
   (length rs' < length (service_chunks service_arns) \<longrightarrow>
      get_service_details scripted cluster_arn service_arns (map Inr rs' @ Inl e # rest', []) =
        (Inl e, (rest', map (describe_services cluster_arn)
                          (take (Suc (length rs')) (service_chunks service_arns)))))"
proof -
  have t: "length rs < length (task_chunks task_arns) \<Longrightarrow>
      get_task_details scripted cluster_arn task_arns (map Inr rs @ Inl e # rest, []) =
        (Inl e, (rest, map (describe_tasks cluster_arn)
                         (take (Suc (length rs)) (task_chunks task_arns))))"
    using get_task_details_loop_error [of rs "task_chunks task_arns" cluster_arn "[]" e rest "[]"]
    by (cases "task_arns = []") (simp_all add: get_task_details_def task_chunks_Nil take_map)
  have s: "length rs' < length (service_chunks service_arns) \<Longrightarrow>
      get_service_details scripted cluster_arn service_arns (map Inr rs' @ Inl e # rest', []) =
        (Inl e, (rest', map (describe_services cluster_arn)
                          (take (Suc (length rs')) (service_chunks service_arns))))"
    using get_service_details_loop_error
      [of rs' "service_chunks service_arns" cluster_arn "[]" e rest' "[]"]
    by (cases "service_arns = []") (simp_all add: get_service_details_def service_chunks_Nil take_map)
  show ?thesis
    using t s get_clusters_loop_error [of cs "[]" None e rest_c "[]"]
      get_services_loop_error [of ss cluster_arn "[]" None e rest_s "[]"]
      get_tasks_loop_error [of ts cluster_arn service_arn "[]" None e rest_t "[]"]
    by (simp add: get_clusters_def get_services_def get_tasks_def)
qed

theorem remote_failure_propagates_witness:
  "get_clusters scripted
     ([Inr \<lparr>nextToken = Some ''t1'', clusterArns = [''c1'', ''c2'']\<rparr>,
       Inl (ClientError ''AccessDenied''),
       Inr \<lparr>nextToken = None, clusterArns = [''c3'']\<rparr>], []) =
     Some (Inl (ClientError ''AccessDenied''),
           ([Inr \<lparr>nextToken = None, clusterArns = [''c3'']\<rparr>],
            [list_clusters None, list_clusters (Some ''t1'')])) \<and>
   get_service_details scripted ''prod''
     [''s1'', ''s2'', ''s3'', ''s4'', ''s5'', ''s6'', ''s7'', ''s8'', ''s9'', ''s10'', ''s11'']
     ([Inr \<lparr>response_services = [\<lparr>serviceArn = ''s1'', serviceName = ''web''\<rparr>]\<rparr>,
       Inl (ClientError ''Throttling''),
       Inr \<lparr>response_services = []\<rparr>], []) =
     (Inl (ClientError ''Throttling''),
      ([Inr \<lparr>response_services = []\<rparr>],
       [describe_services ''prod''
          [''s1'', ''s2'', ''s3'', ''s4'', ''s5'', ''s6'', ''s7'', ''s8'', ''s9'', ''s10''],
        describe_services ''prod'' [''s11'']])) \<and>
   get_task_details scripted ''prod'' [''k1'']
     ([Inl (ClientError ''Throttling''), Inr \<lparr>response_tasks = []\<rparr>], []) =
     (Inl (ClientError ''Throttling''),
      ([Inr \<lparr>response_tasks = []\<rparr>], [describe_tasks ''prod'' [''k1'']]))"
  using remote_failure_propagates
    [of "[\<lparr>nextToken = Some ''t1'', clusterArns = [''c1'', ''c2'']\<rparr>]"
        "ClientError ''AccessDenied''" "[Inr \<lparr>nextToken = None, clusterArns = [''c3'']\<rparr>]"
        "[]" "''prod''" "[]" "[]" None "[]" "[]" "[''k1'']" "[]" "[]" "[]" "[]"]
    remote_failure_propagates
    [of "[]" "ClientError ''Throttling''" "[]" "[]" "''prod''" "[]" "[]" None "[]"
        "[]" "[''k1'']" "[Inr \<lparr>response_tasks = []\<rparr>]"
        "[\<lparr>response_services = [\<lparr>serviceArn = ''s1'', serviceName = ''web''\<rparr>]\<rparr>]"
        "[''s1'', ''s2'', ''s3'', ''s4'', ''s5'', ''s6'', ''s7'', ''s8'', ''s9'', ''s10'', ''s11'']"
        "[Inr \<lparr>response_services = []\<rparr>]"]
  by (simp add: sent_def task_chunks_def service_chunks_def range_step.simps slice_def)

subsection \<open>Cluster details\<close>

text \<open>
  Claim C8. For an input that is not empty, whatever its length, \<open>get_cluster_details\<close>
  issues exactly one call, which asks for all the identifiers at once, and returns the
  clusters of the response of this call. For the empty input it returns the empty sequence
  and issues no call.
\<close>

theorem cluster_details_single_call:
  "(cluster_arns \<noteq> [] \<longrightarrow>
      get_cluster_details scripted cluster_arns (Inr response # rest, []) =
        (Inr (response_clusters response),
         (rest, [describe_clusters cluster_arns [''STATISTICS'']])) \<and>
      snd (snd (get_cluster_details scripted cluster_arns (script, []))) =
        [describe_clusters cluster_arns [''STATISTICS'']]) \<and>
   get_cluster_details scripted [] (script, []) = (Inr [], (script, []))"
proof -
  have "snd (snd (get_cluster_details scripted cluster_arns (script, []))) =
        [describe_clusters cluster_arns [''STATISTICS'']]" if "cluster_arns \<noteq> []"
  proof (cases script)
    case Nil
    with that show ?thesis by (simp add: get_cluster_details_def)
  next
    case (Cons r script')
    with that show ?thesis by (cases r) (simp_all add: get_cluster_details_def)
  qed
  then show ?thesis by (simp add: get_cluster_details_def)
qed

theorem cluster_details_single_call_witness:
  "get_cluster_details scripted [''c1'', ''c2'', ''c3'']
     ([Inr \<lparr>response_clusters = [\<lparr>clusterArn = ''c1'', clusterName = ''prod''\<rparr>,
                                  \<lparr>clusterArn = ''c3'', clusterName = ''test''\<rparr>]\<rparr>,
       Inl (ClientError ''unused'')], []) =
     (Inr [\<lparr>clusterArn = ''c1'', clusterName = ''prod''\<rparr>,
           \<lparr>clusterArn = ''c3'', clusterName = ''test''\<rparr>],
      ([Inl (ClientError ''unused'')], [describe_clusters [''c1'', ''c2'', ''c3''] [''STATISTICS'']])) \<and>
   snd (snd (get_cluster_details scripted [''c1'', ''c2'', ''c3'']
     ([Inl (ClientError ''AccessDenied'') :: error + describe_clusters_response], []))) =
     [describe_clusters [''c1'', ''c2'', ''c3''] [''STATISTICS'']]"
  using cluster_details_single_call
    [of "[''c1'', ''c2'', ''c3'']"
        "\<lparr>response_clusters = [\<lparr>clusterArn = ''c1'', clusterName = ''prod''\<rparr>,
                                  \<lparr>clusterArn = ''c3'', clusterName = ''test''\<rparr>]\<rparr>"
        "[Inl (ClientError ''unused'')]" "[Inl (ClientError ''AccessDenied'')]"]
  by simp

subsection \<open>Status count\<close>

text \<open>
  Claim C4. For every sequence of task records, the dictionary \<open>status_count\<close> builds holds
  under each status string the number of records with this status, and no entry for a status
  that no record has; the status is any string. Each key occurs once. For records with the
  statuses RUNNING, RUNNING, PENDING, STOPPED, RUNNING the dictionary is RUNNING: 3,
  PENDING: 1, STOPPED: 1.
\<close>

theorem status_count_counts:
  "map_of (status_count task_details) st =
     (if st \<in> lastStatus ` set task_details
      then Some (int (length (filter (\<lambda>task. lastStatus task = st) task_details)))
      else None) \<and>
   distinct (map fst (status_count task_details)) \<and>
   (map lastStatus task_details = [''RUNNING'', ''RUNNING'', ''PENDING'', ''STOPPED'', ''RUNNING''] \<longrightarrow>
      status_count task_details = [(''RUNNING'', 3), (''PENDING'', 1), (''STOPPED'', 1)])"
proof -
  let ?ex = "map (\<lambda>s. \<lparr>taskArn = [], lastStatus = s\<rparr>)
               [''RUNNING'', ''RUNNING'', ''PENDING'', ''STOPPED'', ''RUNNING'']"
  have ex: "status_count ?ex = [(''RUNNING'', 3), (''PENDING'', 1), (''STOPPED'', 1)]"
    by (simp add: status_count_def)
  have "status_count task_details = [(''RUNNING'', 3), (''PENDING'', 1), (''STOPPED'', 1)]"
    if a: "map lastStatus task_details =
             [''RUNNING'', ''RUNNING'', ''PENDING'', ''STOPPED'', ''RUNNING'']"
  proof -
    have "map lastStatus task_details = map lastStatus ?ex" using a by simp
    then have "status_count task_details = status_count ?ex"
      unfolding status_count_def by (rule status_count_loop_statuses)
    with ex show ?thesis by simp
  qed
  moreover have "map_of (status_count task_details) st =
     (if st \<in> lastStatus ` set task_details
      then Some (int (length (filter (\<lambda>task. lastStatus task = st) task_details)))
      else None)"
    by (simp add: status_count_def map_of_status_count_loop)
  moreover have "distinct (map fst (status_count task_details))"
    by (simp add: status_count_def distinct_status_count_loop)
  ultimately show ?thesis by blast
qed

theorem status_count_counts_witness:
  "status_count
     [\<lparr>taskArn = ''k1'', lastStatus = ''RUNNING''\<rparr>, \<lparr>taskArn = ''k2'', lastStatus = ''RUNNING''\<rparr>,
      \<lparr>taskArn = ''k3'', lastStatus = ''PENDING''\<rparr>, \<lparr>taskArn = ''k4'', lastStatus = ''STOPPED''\<rparr>,
      \<lparr>taskArn = ''k5'', lastStatus = ''RUNNING''\<rparr>] =
     [(''RUNNING'', 3), (''PENDING'', 1), (''STOPPED'', 1)] \<and>
   map_of (status_count
     [\<lparr>taskArn = ''k1'', lastStatus = ''RUNNING''\<rparr>, \<lparr>taskArn = ''k2'', lastStatus = ''RUNNING''\<rparr>,
      \<lparr>taskArn = ''k3'', lastStatus = ''PENDING''\<rparr>, \<lparr>taskArn = ''k4'', lastStatus = ''STOPPED''\<rparr>,
      \<lparr>taskArn = ''k5'', lastStatus = ''RUNNING''\<rparr>]) ''RUNNING'' = Some 3 \<and>
   map_of (status_count
     [\<lparr>taskArn = ''k1'', lastStatus = ''RUNNING''\<rparr>, \<lparr>taskArn = ''k2'', lastStatus = ''RUNNING''\<rparr>,
      \<lparr>taskArn = ''k3'', lastStatus = ''PENDING''\<rparr>, \<lparr>taskArn = ''k4'', lastStatus = ''STOPPED''\<rparr>,
      \<lparr>taskArn = ''k5'', lastStatus = ''RUNNING''\<rparr>]) ''DRAINING'' = None"
  using status_count_counts
    [of "[\<lparr>taskArn = ''k1'', lastStatus = ''RUNNING''\<rparr>, \<lparr>taskArn = ''k2'', lastStatus = ''RUNNING''\<rparr>,
      \<lparr>taskArn = ''k3'', lastStatus = ''PENDING''\<rparr>, \<lparr>taskArn = ''k4'', lastStatus = ''STOPPED''\<rparr>,
      \<lparr>taskArn = ''k5'', lastStatus = ''RUNNING''\<rparr>]" "''RUNNING''"]
    status_count_counts
    [of "[\<lparr>taskArn = ''k1'', lastStatus = ''RUNNING''\<rparr>, \<lparr>taskArn = ''k2'', lastStatus = ''RUNNING''\<rparr>,
      \<lparr>taskArn = ''k3'', lastStatus = ''PENDING''\<rparr>, \<lparr>taskArn = ''k4'', lastStatus = ''STOPPED''\<rparr>,
      \<lparr>taskArn = ''k5'', lastStatus = ''RUNNING''\<rparr>]" "''DRAINING''"]
  by simp

text \<open>
  Claim C9. For every sequence of task records, the dictionary of \<open>status_count\<close> has each
  key once, its counts add up to the number of records, both as the entries stand in the
  dictionary and summed over its keys, every key is the status of some record, and every count
  is at least 1.
\<close>

theorem status_count_invariants:
  "distinct (map fst (status_count task_details)) \<and>
   sum_list (map snd (status_count task_details)) = int (length task_details) \<and>
   (\<Sum>k\<in>fst ` set (status_count task_details). the (map_of (status_count task_details) k)) =
     int (length task_details) \<and>
   (\<forall>k\<in>fst ` set (status_count task_details). k \<in> lastStatus ` set task_details) \<and>
   (\<forall>(k, c)\<in>set (status_count task_details). 1 \<le> c)"
proof -
  have d: "distinct (map fst (status_count task_details))"
    by (simp add: status_count_def distinct_status_count_loop)
  have "list_all (\<lambda>(k, c). 1 \<le> c) (status_count task_details)"
    unfolding status_count_def by (rule pos_status_count_loop) simp
  then have p: "\<forall>(k, c)\<in>set (status_count task_details). 1 \<le> c"
    by (simp add: list_all_iff)
  have s: "sum_list (map snd (status_count task_details)) = int (length task_details)"
    by (simp add: status_count_def sum_status_count_loop)
  have m: "(\<Sum>k\<in>fst ` set (status_count task_details).
              the (map_of (status_count task_details) k)) = int (length task_details)"
    using sum_keys_alist [OF d] s by simp
  have k: "\<forall>k\<in>fst ` set (status_count task_details). k \<in> lastStatus ` set task_details"
    by (simp add: status_count_def keys_status_count_loop)
  from d p s m k show ?thesis by blast
qed

theorem status_count_invariants_witness:
  "status_count
     [\<lparr>taskArn = ''k1'', lastStatus = ''RUNNING''\<rparr>, \<lparr>taskArn = ''k2'', lastStatus = ''STOPPED''\<rparr>,
      \<lparr>taskArn = ''k3'', lastStatus = ''STOPPED''\<rparr>, \<lparr>taskArn = ''k4'', lastStatus = ''DRAINING''\<rparr>,
      \<lparr>taskArn = ''k5'', lastStatus = ''STOPPED''\<rparr>] =
     [(''RUNNING'', 1), (''STOPPED'', 3), (''DRAINING'', 1)] \<and>
   distinct (map fst (status_count
     [\<lparr>taskArn = ''k1'', lastStatus = ''RUNNING''\<rparr>, \<lparr>taskArn = ''k2'', lastStatus = ''STOPPED''\<rparr>,
      \<lparr>taskArn = ''k3'', lastStatus = ''STOPPED''\<rparr>, \<lparr>taskArn = ''k4'', lastStatus = ''DRAINING''\<rparr>,
      \<lparr>taskArn = ''k5'', lastStatus = ''STOPPED''\<rparr>])) \<and>
   sum_list (map snd (status_count
     [\<lparr>taskArn = ''k1'', lastStatus = ''RUNNING''\<rparr>, \<lparr>taskArn = ''k2'', lastStatus = ''STOPPED''\<rparr>,
      \<lparr>taskArn = ''k3'', lastStatus = ''STOPPED''\<rparr>, \<lparr>taskArn = ''k4'', lastStatus = ''DRAINING''\<rparr>,
      \<lparr>taskArn = ''k5'', lastStatus = ''STOPPED''\<rparr>])) = 5"
  using status_count_invariants
    [of "[\<lparr>taskArn = ''k1'', lastStatus = ''RUNNING''\<rparr>, \<lparr>taskArn = ''k2'', lastStatus = ''STOPPED''\<rparr>,
      \<lparr>taskArn = ''k3'', lastStatus = ''STOPPED''\<rparr>, \<lparr>taskArn = ''k4'', lastStatus = ''DRAINING''\<rparr>,
      \<lparr>taskArn = ''k5'', lastStatus = ''STOPPED''\<rparr>]"]
  by (simp add: status_count_def)

end
